theory Spec2Isabelle
  imports Main "HOL-Library.Countable"
begin

section \<open>Items\<close>

text \<open>
  The item values of \<^verbatim>\<open>dolevyao_nsl.c\<close>: the inductive type \<^verbatim>\<open>item\<close> with its four
  constructors, in the order and with the fields of the source. All fields are
  mathematical integers, as in the ghost code; the values of the C type \<^verbatim>\<open>int\<close>
  (principal ids, data, choices) are among them, and the code only compares them.
\<close>

datatype item =
    key_item int int bool int
  | data_item int
  | encrypted_item int int int item
  | pair_item item item

text \<open>
  The source declares \<^verbatim>\<open>bad\<close>, \<^verbatim>\<open>int_left\<close>, \<^verbatim>\<open>int_right\<close> and \<^verbatim>\<open>int_pair\<close> as fixpoints
  without a body. They are parameters of the development, collected in one record.
  The two \<^verbatim>\<open>lemma_auto\<close> facts about them are the predicate \<open>int_pair_lemmas\<close>.
\<close>

record fixpoints =
  bad :: "int \<Rightarrow> bool"
  int_left :: "int \<Rightarrow> int"
  int_right :: "int \<Rightarrow> int"
  int_pair :: "int \<Rightarrow> int \<Rightarrow> int"

definition int_left_int_pair :: "fixpoints \<Rightarrow> bool" where
  "int_left_int_pair E \<longleftrightarrow> (\<forall>f s. int_left E (int_pair E f s) = f)"

definition int_right_int_pair :: "fixpoints \<Rightarrow> bool" where
  "int_right_int_pair E \<longleftrightarrow> (\<forall>f s. int_right E (int_pair E f s) = s)"

definition int_pair_lemmas :: "fixpoints \<Rightarrow> bool" where
  "int_pair_lemmas E \<longleftrightarrow> int_left_int_pair E \<and> int_right_int_pair E"

section \<open>The definition of pub for the protocol\<close>

text \<open>
  \<^verbatim>\<open>mypub\<close>, case by case as in the source. The nested \<^verbatim>\<open>switch\<close> statements are
  nested case expressions; \<^verbatim>\<open>default: return false\<close> is the wildcard case.
\<close>

fun mypub :: "fixpoints \<Rightarrow> item \<Rightarrow> bool" where
  "mypub E (key_item o' k isPublicKey info) =
     (isPublicKey \<or> bad E o' \<or>
      int_left E info = 1 \<and> bad E (int_right E info) \<or>
      int_left E info = 2 \<and> bad E (int_left E (int_right E info)))"
| "mypub E (data_item d) = True"
| "mypub E (encrypted_item creator id' info m) =
     (mypub E m \<or>
      (case m of
         key_item creator0 id0 isPublicKey0 info0 \<Rightarrow>
           int_left E info0 = 2 \<and> creator = creator0 \<and> \<not> isPublicKey0 \<and>
           info = int_pair E 0 0 \<and>
           int_left E (int_right E info0) = int_left E (int_right E (int_right E info0)) \<and>
           int_left E (int_right E (int_right E (int_right E info0))) = 0 \<and>
           int_right E (int_right E (int_right E (int_right E info0))) = int_pair E 1 creator
       | pair_item f s \<Rightarrow>
           (case s of
              key_item creator0 id0 isPublicKey0 info0 \<Rightarrow>
                info0 = int_pair E 1 creator \<and> f = data_item creator0 \<and>
                \<not> isPublicKey0 \<and> info = int_pair E 0 0
            | pair_item fs ss \<Rightarrow>
                (case ss of
                   key_item creator0 id0 isPublicKey0 info0 \<Rightarrow>
                     int_left E info0 = 2 \<and> creator = int_left E (int_right E info0) \<and>
                     \<not> isPublicKey0 \<and> f = data_item creator0 \<and> info = int_pair E 0 0 \<and>
                     (mypub E fs \<or>
                      (case fs of
                         key_item creator1 id1 isPublicKey1 info1 \<Rightarrow>
                           creator1 = int_left E (int_right E (int_right E info0)) \<and>
                           (if isPublicKey1 then 1 else 0) =
                             int_left E (int_right E (int_right E (int_right E info0))) \<and>
                           info1 = int_right E (int_right E (int_right E (int_right E info0))) \<and>
                           creator1 = creator \<and> \<not> isPublicKey1 \<and>
                           info1 = int_pair E 1 creator0
                       | _ \<Rightarrow> False))
                 | _ \<Rightarrow> False)
            | _ \<Rightarrow> False)
       | _ \<Rightarrow> False))"
| "mypub E (pair_item f s) = (mypub E f \<and> mypub E s)"

section \<open>Outcomes and state\<close>

text \<open>
  A call of the source either returns or does not. The ways of not returning are kept
  apart by a tag: a wrapper aborts because the item has not the expected constructor
  (\<open>ShapeMismatch\<close>), because the key is the wrong half (\<open>WrongKeyHalf\<close>) or not
  the key of the ciphertext (\<open>KeyMismatch\<close>); a role calls \<^verbatim>\<open>abort()\<close> after a
  failed comparison (\<open>Aborted\<close>); \<^verbatim>\<open>create_keypair\<close> is called without a
  \<^verbatim>\<open>principal\<close> chunk, which its contract does not permit (\<open>NoPrincipal\<close>).

  Ghost statements execute nothing. The two ghost assumptions of the source,
  \<^verbatim>\<open>assume(bad(me))\<close> in the attacker and \<^verbatim>\<open>assume(!bad(client))\<close> in the server, are
  therefore no statements of the model: the code after them runs whether they hold or
  not. They are hypotheses of the theorems about the code they precede.
\<close>

datatype halt =
    ShapeMismatch
  | WrongKeyHalf
  | KeyMismatch
  | Aborted
  | NoPrincipal

text \<open>
  The arguments of the predicates \<^verbatim>\<open>key(item, creator, id, isPublicKey, info)\<close> and
  \<^verbatim>\<open>keypair(keypair, creator, id, info)\<close>. Opening a \<^verbatim>\<open>key\<close> chunk gives the item
  \<^verbatim>\<open>key_item(creator, id, isPublicKey, info)\<close>: that is \<open>item_of_key\<close>.
\<close>

type_synonym key = "int \<times> int \<times> bool \<times> int"

type_synonym keypair = "int \<times> int \<times> int"

fun item_of_key :: "key \<Rightarrow> item" where
  "item_of_key (creator, id', isPublicKey, info) = key_item creator id' isPublicKey info"

text \<open>
  The state: \<^verbatim>\<open>principals(count)\<close>, the chunks \<^verbatim>\<open>principal(id, keyCount)\<close> as a
  partial map from principal ids to key counts, and the items sent into the world so
  far, oldest first.
\<close>

record state =
  principals :: int
  principal :: "int \<rightharpoonup> int"
  world :: "item list"

type_synonym 'a prog = "state \<Rightarrow> (halt + 'a) \<times> state"

definition return :: "'a \<Rightarrow> 'a prog" where
  "return a s = (Inr a, s)"

definition bind :: "'a prog \<Rightarrow> ('a \<Rightarrow> 'b prog) \<Rightarrow> 'b prog" where
  "bind m f s = (case m s of (Inl h, s') \<Rightarrow> (Inl h, s') | (Inr a, s') \<Rightarrow> f a s')"

definition lift :: "halt + 'a \<Rightarrow> 'a prog" where
  "lift r s = (r, s)"

definition abort :: "unit prog" where
  "abort s = (Inl Aborted, s)"

section \<open>Principals and key pairs\<close>

text \<open>
  Modelled from the spec: the bodies of \<^verbatim>\<open>create_principal\<close> (a ghost lemma) and
  \<^verbatim>\<open>create_keypair\<close>, which the source gives a contract but no body. Each definition
  follows the contract: \<^verbatim>\<open>principals(count)\<close> becomes \<^verbatim>\<open>principals(count + 1)\<close> with a
  new chunk \<^verbatim>\<open>principal(count, 0)\<close>; \<^verbatim>\<open>principal(p, keyCount)\<close> becomes
  \<^verbatim>\<open>principal(p, keyCount + 1)\<close> with the key pair \<^verbatim>\<open>(p, keyCount, info)\<close>.
\<close>

definition create_principal :: "int prog" where
  "create_principal s =
     (Inr (principals s),
      s\<lparr>principals := principals s + 1, principal := (principal s)(principals s \<mapsto> 0)\<rparr>)"

definition create_keypair :: "int \<Rightarrow> int \<Rightarrow> keypair prog" where
  "create_keypair p info s =
     (case principal s p of
        None \<Rightarrow> (Inl NoPrincipal, s)
      | Some keyCount \<Rightarrow>
          (Inr (p, keyCount, info), s\<lparr>principal := (principal s)(p \<mapsto> keyCount + 1)\<rparr>))"

fun keypair_get_private_key :: "keypair \<Rightarrow> key" where
  "keypair_get_private_key (creator, id', info) = (creator, id', False, info)"

fun keypair_get_public_key :: "keypair \<Rightarrow> key" where
  "keypair_get_public_key (creator, id', info) = (creator, id', True, info)"

section \<open>The item wrappers\<close>

text \<open>
  Modelled from the spec: the bodies of the item wrappers, which the source declares
  with a contract only; each definition follows the contract and the comment above it.
  A postcondition \<^verbatim>\<open>false\<close> for a constructor means that the
  call does not return for such an item: it aborts. \<^verbatim>\<open>item_free\<close> only releases the
  object and has no counterpart on item values.
\<close>

definition check_is_key :: "item \<Rightarrow> halt + key" where
  "check_is_key i =
     (case i of
        key_item creator id' isPublicKey info \<Rightarrow> Inr (creator, id', isPublicKey, info)
      | data_item d \<Rightarrow> Inl ShapeMismatch
      | encrypted_item creator id' info payload \<Rightarrow> Inl ShapeMismatch
      | pair_item f s \<Rightarrow> Inl ShapeMismatch)"

definition create_data_item :: "int \<Rightarrow> item" where
  "create_data_item data = data_item data"

definition item_get_data :: "item \<Rightarrow> halt + int" where
  "item_get_data i =
     (case i of
        data_item d \<Rightarrow> Inr d
      | key_item creator id' isPublicKey info \<Rightarrow> Inl ShapeMismatch
      | encrypted_item creator id' info payload \<Rightarrow> Inl ShapeMismatch
      | pair_item f s \<Rightarrow> Inl ShapeMismatch)"

fun encrypt :: "key \<Rightarrow> item \<Rightarrow> halt + item" where
  "encrypt (creator, id', isPublicKey, info) p =
     (if isPublicKey then Inr (encrypted_item creator id' info p) else Inl WrongKeyHalf)"

fun decrypt :: "key \<Rightarrow> item \<Rightarrow> halt + item" where
  "decrypt (creator, id', isPublicKey, info) i =
     (if isPublicKey then Inl WrongKeyHalf
      else
        (case i of
           encrypted_item creator0 id0 info0 p \<Rightarrow>
             if creator0 = creator \<and> id0 = id' \<and> info0 = info then Inr p
             else Inl KeyMismatch
         | key_item creator0 id0 isPublicKey0 info0 \<Rightarrow> Inl ShapeMismatch
         | data_item d \<Rightarrow> Inl ShapeMismatch
         | pair_item f s \<Rightarrow> Inl ShapeMismatch))"

definition create_pair :: "item \<Rightarrow> item \<Rightarrow> item" where
  "create_pair f s = pair_item f s"

definition pair_get_first :: "item \<Rightarrow> halt + item" where
  "pair_get_first p =
     (case p of
        pair_item f s \<Rightarrow> Inr f
      | key_item creator id' isPublicKey info \<Rightarrow> Inl ShapeMismatch
      | data_item d \<Rightarrow> Inl ShapeMismatch
      | encrypted_item creator id' info payload \<Rightarrow> Inl ShapeMismatch)"

definition pair_get_second :: "item \<Rightarrow> halt + item" where
  "pair_get_second p =
     (case p of
        pair_item f s \<Rightarrow> Inr s
      | key_item creator id' isPublicKey info \<Rightarrow> Inl ShapeMismatch
      | data_item d \<Rightarrow> Inl ShapeMismatch
      | encrypted_item creator id' info payload \<Rightarrow> Inl ShapeMismatch)"

definition item_equals :: "item \<Rightarrow> item \<Rightarrow> bool" where
  "item_equals i1 i2 \<longleftrightarrow> i1 = i2"

section \<open>The network\<close>

text \<open>
  \<^verbatim>\<open>net_send\<close> puts the item into the world. \<^verbatim>\<open>net_receive\<close> returns an item \<open>d\<close>
  that the world chooses; its contract promises \<^verbatim>\<open>pub(d)\<close>, which the theorems below
  assume of every delivered item. \<^verbatim>\<open>get_client_public_key\<close> returns a public key of
  the client whose id the contract leaves open; the id is an argument here.
\<close>

definition net_send :: "item \<Rightarrow> unit prog" where
  "net_send d s = (Inr (), s\<lparr>world := world s @ [d]\<rparr>)"

definition net_receive :: "item \<Rightarrow> item prog" where
  "net_receive d = return d"

definition get_client_public_key :: "fixpoints \<Rightarrow> int \<Rightarrow> int \<Rightarrow> key" where
  "get_client_public_key E client kid = (client, kid, True, int_pair E 0 0)"

section \<open>The client\<close>

text \<open>
  \<^verbatim>\<open>client\<close>, statement by statement. \<open>r\<close> is the item that the one call of
  \<^verbatim>\<open>net_receive\<close> returns. The C function returns nothing; the model returns the
  values of \<^verbatim>\<open>clientNonce\<close> and \<^verbatim>\<open>serverNonce\<close> at the final assertion.
\<close>

definition client :: "fixpoints \<Rightarrow> int \<Rightarrow> int \<Rightarrow> key \<Rightarrow> key \<Rightarrow> item \<Rightarrow> (item \<times> item) prog" where
  "client E client' server clientPrivateKey serverPublicKey r =
     bind (create_keypair client' (int_pair E 1 server)) (\<lambda>noncePair.
     let clientNonce = item_of_key (keypair_get_private_key noncePair);
         i0 = item_of_key (keypair_get_public_key noncePair);
         i1 = create_data_item client';
         i2 = create_pair i1 clientNonce
     in
     bind (lift (encrypt serverPublicKey i2)) (\<lambda>i3.
     bind (net_send i3) (\<lambda>_.
     bind (net_receive r) (\<lambda>i4.
     bind (lift (decrypt clientPrivateKey i4)) (\<lambda>i5.
     bind (lift (pair_get_first i5)) (\<lambda>i6.
     bind (lift (item_get_data i6)) (\<lambda>s.
     bind (if s \<noteq> server then abort else return ()) (\<lambda>_.
     bind (lift (pair_get_second i5)) (\<lambda>i7.
     bind (lift (pair_get_first i7)) (\<lambda>i8.
     let eq = item_equals clientNonce i8 in
     bind (if \<not> eq then abort else return ()) (\<lambda>_.
     bind (lift (pair_get_second i7)) (\<lambda>serverNonce.
     bind (lift (encrypt serverPublicKey serverNonce)) (\<lambda>i9.
     bind (net_send i9) (\<lambda>_.
     return (clientNonce, serverNonce)))))))))))))))"

section \<open>The server\<close>

text \<open>
  One iteration of the loop of \<^verbatim>\<open>server\<close>. \<open>r1\<close> and \<open>r2\<close> are the items that the
  two calls of \<^verbatim>\<open>net_receive\<close> return, \<open>kid\<close> the id of the key that
  \<^verbatim>\<open>get_client_public_key\<close> returns. The iteration returns the values of
  \<^verbatim>\<open>client\<close>, \<^verbatim>\<open>clientNonce\<close> and \<^verbatim>\<open>serverNonce\<close> at its final assertion. The
  ghost statement \<^verbatim>\<open>assume(!bad(client))\<close> before that assertion executes nothing:
  the iteration completes for a bad client as for any other.
\<close>

definition server_iteration ::
  "fixpoints \<Rightarrow> int \<Rightarrow> key \<Rightarrow> item \<times> int \<times> item \<Rightarrow> (int \<times> item \<times> item) prog" where
  "server_iteration E server serverPrivateKey = (\<lambda>(r1, kid, r2).
     bind (net_receive r1) (\<lambda>i1.
     bind (lift (decrypt serverPrivateKey i1)) (\<lambda>i2.
     bind (lift (pair_get_first i2)) (\<lambda>i3.
     bind (lift (item_get_data i3)) (\<lambda>client'.
     bind (lift (pair_get_second i2)) (\<lambda>clientNonce.
     bind (lift (check_is_key clientNonce))
       (\<lambda>(clientNonceCreator, clientNonceId, clientNonceIsPublicKey, clientNonceInfo).
     let clientPublicKey = get_client_public_key E client' kid in
     bind (create_keypair server
             (int_pair E 2 (int_pair E client' (int_pair E clientNonceCreator
                (int_pair E (if clientNonceIsPublicKey then 1 else 0) clientNonceInfo)))))
       (\<lambda>noncePair.
     let serverNonce = item_of_key (keypair_get_private_key noncePair);
         i0 = item_of_key (keypair_get_public_key noncePair);
         i1 = create_data_item server;
         i2 = create_pair clientNonce serverNonce;
         i3 = create_pair i1 i2
     in
     bind (lift (encrypt clientPublicKey i3)) (\<lambda>i4.
     bind (net_send i4) (\<lambda>_.
     bind (net_receive r2) (\<lambda>i1.
     bind (lift (decrypt serverPrivateKey i1)) (\<lambda>i2.
     let eq = item_equals i2 serverNonce in
     bind (if \<not> eq then abort else return ()) (\<lambda>_.
     return (client', clientNonce, serverNonce))))))))))))))"

text \<open>
  The loop \<^verbatim>\<open>for (;;)\<close> of the server never ends by itself. The model runs it on a
  finite list of deliveries, one entry for each iteration. An iteration that aborts
  ends the program; every other iteration is followed by the next one. The model
  gives the client and the two nonces of each completed iteration, in order.
\<close>

fun server :: "fixpoints \<Rightarrow> int \<Rightarrow> key \<Rightarrow> (item \<times> int \<times> item) list \<Rightarrow> state
    \<Rightarrow> (int \<times> item \<times> item) list \<times> state" where
  "server E sv k [] s = ([], s)"
| "server E sv k (d # ds) s =
     (case server_iteration E sv k d s of
        (Inl h, s') \<Rightarrow> ([], s')
      | (Inr session, s') \<Rightarrow>
          (case server E sv k ds s' of (completed, s'') \<Rightarrow> (session # completed, s'')))"

section \<open>The attacker\<close>

text \<open>
  One iteration of the inner loop of \<^verbatim>\<open>attacker\<close> for the principal \<open>me\<close>. The
  environment of an iteration is \<open>(action, c, r1, r2)\<close>: the value of the first
  \<^verbatim>\<open>choose()\<close>, the value of the second one (cases 0 and 1), and the items that the
  first and second \<^verbatim>\<open>net_receive()\<close> return. The \<^verbatim>\<open>switch\<close> has no default: any
  other action does nothing. In case 0 the ghost statement \<^verbatim>\<open>assume(bad(me))\<close>
  between the two sends executes nothing: the private key is sent whether \<open>me\<close> is
  bad or not. The parameter \<open>E\<close> stands for the \<^verbatim>\<open>world(mypub)\<close> of the contract; no
  statement of the attacker reads it.
\<close>

type_synonym choices = "int \<times> int \<times> item \<times> item"

definition attacker_action :: "fixpoints \<Rightarrow> int \<Rightarrow> choices \<Rightarrow> unit prog" where
  "attacker_action E me = (\<lambda>(action, c, r1, r2).
     if action = 0 then
       (let info = c in
        bind (create_keypair me info) (\<lambda>keypair.
        let sk = item_of_key (keypair_get_private_key keypair);
            pk = item_of_key (keypair_get_public_key keypair)
        in
        bind (net_send pk) (\<lambda>_.
        net_send sk)))
     else if action = 1 then
       (let data = c; item = create_data_item data in net_send item)
     else if action = 2 then
       bind (net_receive r1) (\<lambda>first.
       bind (net_receive r2) (\<lambda>second.
       let pair = create_pair first second in net_send pair))
     else if action = 3 then
       bind (net_receive r1) (\<lambda>key.
       bind (net_receive r2) (\<lambda>payload.
       bind (lift (check_is_key key)) (\<lambda>k.
       bind (lift (encrypt k payload)) (\<lambda>item.
       net_send item))))
     else if action = 4 then
       bind (net_receive r1) (\<lambda>pair.
       bind (lift (pair_get_first pair)) (\<lambda>first.
       bind (lift (pair_get_second pair)) (\<lambda>second.
       bind (net_send first) (\<lambda>_.
       net_send second))))
     else if action = 5 then
       bind (net_receive r1) (\<lambda>key.
       bind (net_receive r2) (\<lambda>package.
       bind (lift (check_is_key key)) (\<lambda>k.
       bind (lift (decrypt k package)) (\<lambda>payload.
       net_send payload))))
     else return ())"

text \<open>The items that \<^verbatim>\<open>net_receive\<close> returns in an iteration with these choices.\<close>

fun delivered :: "choices \<Rightarrow> item list" where
  "delivered (action, c, r1, r2) =
     (if action = 2 \<or> action = 3 \<or> action = 5 then [r1, r2]
      else if action = 4 then [r1]
      else [])"

text \<open>
  The inner loop never ends and contains no statement that leaves it (each \<^verbatim>\<open>break\<close>
  leaves the \<^verbatim>\<open>switch\<close>), so the outer loop creates one principal and the ghost
  statement \<^verbatim>\<open>leak\<close> is never reached. The model runs the inner loop on a finite list
  of choices, one entry for each iteration, and stops when an iteration aborts.
\<close>

fun attacker_loop :: "fixpoints \<Rightarrow> int \<Rightarrow> choices list \<Rightarrow> unit prog" where
  "attacker_loop E me [] s = (Inr (), s)"
| "attacker_loop E me (c # cs) s =
     (case attacker_action E me c s of
        (Inl h, s') \<Rightarrow> (Inl h, s')
      | (Inr u, s') \<Rightarrow> attacker_loop E me cs s')"

definition attacker :: "fixpoints \<Rightarrow> choices list \<Rightarrow> unit prog" where
  "attacker E cs = bind create_principal (\<lambda>me. attacker_loop E me cs)"

section \<open>Runs of the registry\<close>

text \<open>
  The calls that change \<^verbatim>\<open>principals\<close> and \<^verbatim>\<open>principal\<close> chunks, as they occur in a
  run: the ghost lemma \<^verbatim>\<open>create_principal\<close> and \<^verbatim>\<open>create_keypair\<close> for a principal
  and an info. \<open>keypairs_created\<close> lists the key pairs that the calls return, in
  order. A call of \<^verbatim>\<open>create_keypair\<close> for a principal without a chunk returns none.
\<close>

datatype registry_call = Create_principal | Create_keypair int int

fun keypairs_created :: "registry_call list \<Rightarrow> state \<Rightarrow> keypair list" where
  "keypairs_created [] s = []"
| "keypairs_created (Create_principal # cs) s = keypairs_created cs (snd (create_principal s))"
| "keypairs_created (Create_keypair p info # cs) s =
     (case create_keypair p info s of
        (Inl h, s') \<Rightarrow> keypairs_created cs s'
      | (Inr kp, s') \<Rightarrow> kp # keypairs_created cs s')"

fun identity :: "keypair \<Rightarrow> int \<times> int" where
  "identity (creator, id', info) = (creator, id')"

text \<open>The state before any call: \<^verbatim>\<open>principals(0)\<close>, no principal, nothing sent.\<close>

definition initial :: state where
  "initial = \<lparr>principals = 0, principal = Map.empty, world = []\<rparr>"

section \<open>Instances of the parameters\<close>

text \<open>
  A pairing of integers with its two projections, built from the bijections between
  natural numbers, pairs of them, and integers. With it, \<open>all_honest\<close> has no bad
  principal, and in \<open>zero_bad\<close> principal 0 (the first one created) is the bad one.
\<close>

definition pair_code :: "int \<Rightarrow> int \<Rightarrow> int" where
  "pair_code f s = int (prod_encode (int_encode f, int_encode s))"

definition left_code :: "int \<Rightarrow> int" where
  "left_code p = int_decode (fst (prod_decode (nat p)))"

definition right_code :: "int \<Rightarrow> int" where
  "right_code p = int_decode (snd (prod_decode (nat p)))"

definition all_honest :: fixpoints where
  "all_honest =
     \<lparr>bad = (\<lambda>p. False), int_left = left_code, int_right = right_code, int_pair = pair_code\<rparr>"

definition zero_bad :: fixpoints where
  "zero_bad =
     \<lparr>bad = (\<lambda>p. p = 0), int_left = left_code, int_right = right_code, int_pair = pair_code\<rparr>"

section \<open>Facts about the parameters\<close>

lemma int_left_pair: "int_pair_lemmas E \<Longrightarrow> int_left E (int_pair E f s) = f"
  by (simp add: int_pair_lemmas_def int_left_int_pair_def)

lemma int_right_pair: "int_pair_lemmas E \<Longrightarrow> int_right E (int_pair E f s) = s"
  by (simp add: int_pair_lemmas_def int_right_int_pair_def)

lemma left_code_pair_code [simp]: "left_code (pair_code f s) = f"
  by (simp add: left_code_def pair_code_def)

lemma right_code_pair_code [simp]: "right_code (pair_code f s) = s"
  by (simp add: right_code_def pair_code_def)

lemma pair_code_eq [simp]: "pair_code f s = pair_code f' s' \<longleftrightarrow> f = f' \<and> s = s'"
  by (metis left_code_pair_code right_code_pair_code)

lemma int_pair_lemmas_all_honest [simp]: "int_pair_lemmas all_honest"
  by (simp add: int_pair_lemmas_def int_left_int_pair_def int_right_int_pair_def all_honest_def)

lemma int_pair_lemmas_zero_bad [simp]: "int_pair_lemmas zero_bad"
  by (simp add: int_pair_lemmas_def int_left_int_pair_def int_right_int_pair_def zero_bad_def)

section \<open>The classifier\<close>

text \<open>
  The private key that opens a public ciphertext is public only if the payload is:
  the case analysis that the attacker's case 5 carries out in ghost code.
\<close>

lemma mypub_decrypted:
  assumes ax: "int_pair_lemmas E"
    and enc: "mypub E (encrypted_item c i info p)"
    and key: "mypub E (key_item c i False info)"
  shows "mypub E p"
proof (cases "mypub E p")
  case True
  then show ?thesis .
next
  case np: False
  show ?thesis
  proof (cases p)
    case (key_item c0 i0 pk0 info0)
    with enc np have "info = int_pair E 0 0" "c = c0" by auto
    with key ax have "bad E c0" by (simp add: int_left_pair)
    with key_item show ?thesis by simp
  next
    case (data_item d)
    then show ?thesis by simp
  next
    case (encrypted_item c0 i0 info0 m)
    with enc np show ?thesis by simp
  next
    case (pair_item f s)
    show ?thesis
    proof (cases s)
      case s: (key_item c0 i0 pk0 info0)
      with enc np pair_item
      have h: "info = int_pair E 0 0" "info0 = int_pair E 1 c" "f = data_item c0"
        by auto
      with key ax have "bad E c" by (simp add: int_left_pair)
      with h s pair_item ax show ?thesis by (simp add: int_left_pair int_right_pair)
    next
      case (data_item d)
      with enc np pair_item show ?thesis by simp
    next
      case (encrypted_item c0 i0 info0 m)
      with enc np pair_item show ?thesis by simp
    next
      case s: (pair_item fs ss)
      show ?thesis
      proof (cases ss)
        case ss: (key_item c0 i0 pk0 info0)
        from enc np pair_item s ss
        have h: "info = int_pair E 0 0" "f = data_item c0"
          "int_left E info0 = 2" "c = int_left E (int_right E info0)"
          by auto
        from key ax h have b: "bad E c" by (simp add: int_left_pair)
        from enc np pair_item s ss
        have "mypub E fs \<or> (\<exists>i1 info1. fs = key_item c i1 False info1)"
          by (cases fs) auto
        with b have "mypub E fs" by auto
        with h b pair_item s ss show ?thesis by simp
      next
        case (data_item d)
        with enc np pair_item s show ?thesis by simp
      next
        case (encrypted_item c0 i0 info0 m)
        with enc np pair_item s show ?thesis by simp
      next
        case (pair_item a b)
        with enc np \<open>p = pair_item f s\<close> s show ?thesis by simp
      qed
    qed
  qed
qed

section \<open>The attacker's actions, one by one\<close>

lemma attacker_action_0:
  "attacker_action E me (0, c, r1, r2) s =
     (case principal s me of
        None \<Rightarrow> (Inl NoPrincipal, s)
      | Some n \<Rightarrow>
          (Inr (), s\<lparr>principal := (principal s)(me \<mapsto> n + 1),
             world := world s @ [key_item me n True c, key_item me n False c]\<rparr>))"
  by (simp add: attacker_action_def bind_def create_keypair_def net_send_def
      split: option.splits)

lemma attacker_action_1:
  "attacker_action E me (1, c, r1, r2) s = (Inr (), s\<lparr>world := world s @ [data_item c]\<rparr>)"
  by (simp add: attacker_action_def bind_def net_send_def create_data_item_def)

lemma attacker_action_2:
  "attacker_action E me (2, c, r1, r2) s = (Inr (), s\<lparr>world := world s @ [pair_item r1 r2]\<rparr>)"
  by (simp add: attacker_action_def bind_def net_send_def net_receive_def return_def
      create_pair_def)

lemma attacker_action_3:
  "attacker_action E me (3, c, r1, r2) s =
     (case check_is_key r1 of
        Inl h \<Rightarrow> (Inl h, s)
      | Inr k \<Rightarrow>
          (case encrypt k r2 of
             Inl h \<Rightarrow> (Inl h, s)
           | Inr i \<Rightarrow> (Inr (), s\<lparr>world := world s @ [i]\<rparr>)))"
  by (simp add: attacker_action_def bind_def net_send_def net_receive_def return_def lift_def
      split: sum.splits)

lemma attacker_action_4:
  "attacker_action E me (4, c, r1, r2) s =
     (case r1 of
        pair_item f sn \<Rightarrow> (Inr (), s\<lparr>world := world s @ [f, sn]\<rparr>)
      | _ \<Rightarrow> (Inl ShapeMismatch, s))"
  by (simp add: attacker_action_def bind_def net_send_def net_receive_def return_def lift_def
      pair_get_first_def pair_get_second_def split: sum.splits item.splits)

lemma attacker_action_5:
  "attacker_action E me (5, c, r1, r2) s =
     (case check_is_key r1 of
        Inl h \<Rightarrow> (Inl h, s)
      | Inr k \<Rightarrow>
          (case decrypt k r2 of
             Inl h \<Rightarrow> (Inl h, s)
           | Inr p \<Rightarrow> (Inr (), s\<lparr>world := world s @ [p]\<rparr>)))"
  by (simp add: attacker_action_def bind_def net_send_def net_receive_def return_def lift_def
      split: sum.splits)

lemma attacker_action_other:
  "action \<notin> {0, 1, 2, 3, 4, 5} \<Longrightarrow> attacker_action E me (action, c, r1, r2) s = (Inr (), s)"
  by (simp add: attacker_action_def return_def)

lemma check_is_key_eq_Inr:
  "check_is_key x = Inr k \<longleftrightarrow> (\<exists>c i pk info. k = (c, i, pk, info) \<and> x = key_item c i pk info)"
  by (cases x; cases k) (auto simp: check_is_key_def)

lemma decrypt_eq_Inr:
  "decrypt (c, i, pk, info) x = Inr p \<longleftrightarrow> \<not> pk \<and> x = encrypted_item c i info p"
  by (cases x) auto

lemma encrypt_eq_Inr:
  "encrypt (c, i, pk, info) p = Inr x \<longleftrightarrow> pk \<and> x = encrypted_item c i info p"
  by auto

lemma decrypt_publish_world:
  assumes ax: "int_pair_lemmas E" and k: "mypub E key" and p: "mypub E package"
  shows "set (world (snd (attacker_action E me (5, ch, key, package) st)))
    \<subseteq> set (world st) \<union> {d. mypub E d}"
proof (cases "check_is_key key")
  case (Inl h)
  then show ?thesis by (simp add: attacker_action_5)
next
  case (Inr kk)
  then obtain c i pk info where kk: "kk = (c, i, pk, info)" and key: "key = key_item c i pk info"
    by (auto simp: check_is_key_eq_Inr)
  show ?thesis
  proof (cases "decrypt kk package")
    case (Inl h)
    with Inr show ?thesis by (simp add: attacker_action_5)
  next
    case dec: (Inr pl)
    with kk have "\<not> pk" "package = encrypted_item c i info pl"
      by (simp_all add: decrypt_eq_Inr del: decrypt.simps)
    with ax k p key have "mypub E pl" by (auto intro: mypub_decrypted)
    with Inr dec show ?thesis by (auto simp: attacker_action_5)
  qed
qed

section \<open>The client, computed\<close>

text \<open>
  What a call of \<^verbatim>\<open>client\<close> does for each delivered item \<open>r\<close>, when the keys are as
  its precondition says and the client has made \<open>n\<close> keys before.
\<close>

lemma client_run:
  fixes E c sv n s spkid
  defines "cn \<equiv> key_item c n False (int_pair E 1 sv)"
  defines "s1 \<equiv> s\<lparr>principal := (principal s)(c \<mapsto> n + 1),
                  world := world s @ [encrypted_item sv spkid (int_pair E 0 0)
                                        (pair_item (data_item c) cn)]\<rparr>"
  assumes "principal s c = Some n"
  shows "client E c sv (c, cskid, False, int_pair E 0 0) (sv, spkid, True, int_pair E 0 0) r s =
    (case r of
       encrypted_item c0 i0 info0 p \<Rightarrow>
         if c0 = c \<and> i0 = cskid \<and> info0 = int_pair E 0 0 then
           (case p of
              pair_item sid rest \<Rightarrow>
                (case sid of
                   data_item d \<Rightarrow>
                     if d \<noteq> sv then (Inl Aborted, s1)
                     else
                       (case rest of
                          pair_item echo sn \<Rightarrow>
                            if echo \<noteq> cn then (Inl Aborted, s1)
                            else (Inr (cn, sn),
                                  s1\<lparr>world := world s1 @ [encrypted_item sv spkid (int_pair E 0 0) sn]\<rparr>)
                        | _ \<Rightarrow> (Inl ShapeMismatch, s1))
                 | _ \<Rightarrow> (Inl ShapeMismatch, s1))
            | _ \<Rightarrow> (Inl ShapeMismatch, s1))
         else (Inl KeyMismatch, s1)
     | _ \<Rightarrow> (Inl ShapeMismatch, s1))"
  using assms(3) unfolding cn_def s1_def
  by (simp add: client_def bind_def lift_def net_receive_def return_def net_send_def abort_def
      pair_get_first_def pair_get_second_def item_get_data_def create_keypair_def
      create_data_item_def create_pair_def item_equals_def Let_def
      split: item.splits)

lemma client_sends_first:
  assumes "principal s c = Some n"
  shows "\<exists>rest. world (snd (client E c sv (c, cskid, False, int_pair E 0 0)
                               (sv, spkid, True, int_pair E 0 0) r s))
     = world s @ encrypted_item sv spkid (int_pair E 0 0)
         (pair_item (data_item c) (key_item c n False (int_pair E 1 sv))) # rest"
  by (simp add: client_run [OF assms] split: item.splits)

lemma client_returns_iff:
  "client E c sv (c, cskid, False, int_pair E 0 0) (sv, spkid, True, int_pair E 0 0) r s
     = (Inr (cn, sn), s') \<longleftrightarrow>
   (\<exists>n. principal s c = Some n \<and> cn = key_item c n False (int_pair E 1 sv) \<and>
      r = encrypted_item c cskid (int_pair E 0 0) (pair_item (data_item sv) (pair_item cn sn)) \<and>
      s' = s\<lparr>principal := (principal s)(c \<mapsto> n + 1),
             world := world s @
               [encrypted_item sv spkid (int_pair E 0 0) (pair_item (data_item c) cn),
                encrypted_item sv spkid (int_pair E 0 0) sn]\<rparr>)"
proof (cases "principal s c")
  case None
  then show ?thesis by (simp add: client_def bind_def create_keypair_def)
next
  case (Some n)
  show ?thesis
    by (auto simp: client_run [OF Some] Some split: item.splits)
qed

section \<open>Claims about the classifier\<close>

text \<open>
  Claim C2. The classifier is closed under the decryption rule: if a ciphertext
  \<open>encrypted_item c i info p\<close> is public and the private key \<open>key_item c i False info\<close>
  of the same creator, index and info is public, then the payload \<open>p\<close> is public.
  Hence case 5 of the attacker, which receives a public key item and a public package,
  decrypts and sends the payload, adds only public items to the world, whether it
  returns or aborts.
\<close>

theorem classifier_closed_under_decryption:
  assumes "int_pair_lemmas E"
  shows "(mypub E (encrypted_item c i info p) \<and> mypub E (key_item c i False info) \<longrightarrow> mypub E p) \<and>
    (mypub E key \<and> mypub E package \<longrightarrow>
       set (world (snd (attacker_action E me (5, ch, key, package) st)))
         \<subseteq> set (world st) \<union> {d. mypub E d})"
  using assms by (blast intro: mypub_decrypted dest: decrypt_publish_world)

theorem classifier_closed_under_decryption_witness:
  "int_pair_lemmas zero_bad \<and>
   mypub zero_bad (encrypted_item 0 4 (pair_code 0 0) (key_item 0 7 False (pair_code 5 5))) \<and>
   mypub zero_bad (key_item 0 4 False (pair_code 0 0)) \<and>
   mypub zero_bad (key_item 0 7 False (pair_code 5 5)) \<and>
   world (snd (attacker_action zero_bad 0
      (5, 0, key_item 0 4 False (pair_code 0 0),
       encrypted_item 0 4 (pair_code 0 0) (key_item 0 7 False (pair_code 5 5))) initial))
     = [key_item 0 7 False (pair_code 5 5)]"
proof -
  have ax: "int_pair_lemmas zero_bad" by simp
  have enc: "mypub zero_bad (encrypted_item 0 4 (pair_code 0 0) (key_item 0 7 False (pair_code 5 5)))"
    by (simp add: zero_bad_def)
  have key: "mypub zero_bad (key_item 0 4 False (pair_code 0 0))"
    by (simp add: zero_bad_def)
  have run: "world (snd (attacker_action zero_bad 0
      (5, 0, key_item 0 4 False (pair_code 0 0),
       encrypted_item 0 4 (pair_code 0 0) (key_item 0 7 False (pair_code 5 5))) initial))
     = [key_item 0 7 False (pair_code 5 5)]"
    by (simp add: attacker_action_5 check_is_key_def initial_def)
  from classifier_closed_under_decryption [OF ax, of 0 4 "pair_code 0 0"
      "key_item 0 7 False (pair_code 5 5)"] enc key
  have "mypub zero_bad (key_item 0 7 False (pair_code 5 5))" by blast
  with ax enc key run show ?thesis by blast
qed

text \<open>
  Claim C4. Key classification: a key item is public if it is a public half, or its
  creator is bad, or its info is \<open>int_pair 1 owner\<close> (a client nonce) with a bad owner,
  or its info is \<open>int_pair 2 (int_pair client fields)\<close> (a server nonce) with a bad
  client.
\<close>

theorem key_classification:
  assumes "int_pair_lemmas E"
    and "isPublicKey \<or> bad E creator \<or>
         (\<exists>owner. info = int_pair E 1 owner \<and> bad E owner) \<or>
         (\<exists>client' fields. info = int_pair E 2 (int_pair E client' fields) \<and> bad E client')"
  shows "mypub E (key_item creator index isPublicKey info)"
  using assms by (auto simp: int_left_pair int_right_pair)

theorem key_classification_witness:
  "int_pair_lemmas zero_bad \<and>
   mypub zero_bad (key_item 5 7 False (pair_code 2 (pair_code 0 9))) \<and>
   mypub zero_bad (key_item 5 7 False (pair_code 1 0)) \<and>
   mypub zero_bad (key_item 0 7 False 8) \<and>
   mypub zero_bad (key_item 5 7 True 8)"
proof -
  have ax: "int_pair_lemmas zero_bad" by simp
  have b: "bad zero_bad 0" by (simp add: zero_bad_def)
  have "mypub zero_bad (key_item 5 7 False (pair_code 2 (pair_code 0 9)))"
    by (rule key_classification [OF ax]) (simp add: zero_bad_def)
  moreover have "mypub zero_bad (key_item 5 7 False (pair_code 1 0))"
    by (rule key_classification [OF ax]) (simp add: zero_bad_def)
  moreover have "mypub zero_bad (key_item 0 7 False 8)"
    by (rule key_classification [OF ax]) (simp add: b)
  moreover have "mypub zero_bad (key_item 5 7 True 8)"
    by (rule key_classification [OF ax]) simp
  ultimately show ?thesis using ax by blast
qed

text \<open>
  Claim C5. For all principals \<open>C\<close> and \<open>S\<close>, bad or not, and every key index \<open>n\<close>, the
  first message of the client, the pair of \<open>data_item C\<close> and the client nonce
  \<open>key_item C n False (int_pair 1 S)\<close> encrypted for a key of \<open>S\<close> with info
  \<open>int_pair 0 0\<close>, is public. When neither \<open>C\<close> nor \<open>S\<close> is bad the nonce inside is not
  public. The message is the item that the client sends first.
\<close>

theorem client_first_message_public:
  "mypub E (encrypted_item S spkid (int_pair E 0 0)
       (pair_item (data_item C) (key_item C n False (int_pair E 1 S)))) \<and>
   (int_pair_lemmas E \<and> \<not> bad E C \<and> \<not> bad E S \<longrightarrow>
      \<not> mypub E (key_item C n False (int_pair E 1 S))) \<and>
   (principal s C = Some n \<longrightarrow>
      (\<exists>rest. world (snd (client E C S (C, cskid, False, int_pair E 0 0)
                           (S, spkid, True, int_pair E 0 0) r s))
         = world s @ encrypted_item S spkid (int_pair E 0 0)
             (pair_item (data_item C) (key_item C n False (int_pair E 1 S))) # rest))"
proof (intro conjI impI)
  assume "principal s C = Some n"
  then show "\<exists>rest. world (snd (client E C S (C, cskid, False, int_pair E 0 0)
                           (S, spkid, True, int_pair E 0 0) r s))
         = world s @ encrypted_item S spkid (int_pair E 0 0)
             (pair_item (data_item C) (key_item C n False (int_pair E 1 S))) # rest"
    by (simp add: client_sends_first)
qed (simp_all add: int_left_pair int_right_pair)

theorem client_first_message_public_witness:
  "mypub all_honest (encrypted_item 2 0 (pair_code 0 0)
       (pair_item (data_item 1) (key_item 1 0 False (pair_code 1 2)))) \<and>
   \<not> mypub all_honest (key_item 1 0 False (pair_code 1 2)) \<and>
   (\<exists>rest. world (snd (client all_honest 1 2 (1, 0, False, pair_code 0 0) (2, 0, True, pair_code 0 0)
        (data_item 0) \<lparr>principals = 3, principal = [1 \<mapsto> 0], world = []\<rparr>))
      = encrypted_item 2 0 (pair_code 0 0)
          (pair_item (data_item 1) (key_item 1 0 False (pair_code 1 2))) # rest)"
proof -
  have "\<not> bad all_honest 1 \<and> \<not> bad all_honest 2"
    by (simp add: all_honest_def)
  then have ax: "int_pair_lemmas all_honest \<and> \<not> bad all_honest 1 \<and> \<not> bad all_honest 2"
    by simp
  have p: "principal \<lparr>principals = 3, principal = [1 \<mapsto> 0], world = []\<rparr> 1 = Some 0"
    by simp
  have ip: "int_pair all_honest = pair_code" by (simp add: all_honest_def)
  show ?thesis
    using client_first_message_public [of all_honest 2 0 1 0
        "\<lparr>principals = 3, principal = [1 \<mapsto> 0], world = []\<rparr>" 0 "data_item 0"] ax p
    by (simp add: ip)
qed

text \<open>
  Claim C6. Pair classification: \<open>mypub (pair_item f s)\<close> is \<open>mypub f \<and> mypub s\<close>.
  So the pair that case 2 of the attacker builds from two public items and sends is
  public, and the two components that case 4 of the attacker takes from a public pair
  and sends are public.
\<close>

theorem pair_classification:
  "mypub E (pair_item f s) = (mypub E f \<and> mypub E s) \<and>
   (mypub E f \<and> mypub E s \<longrightarrow>
      world (snd (attacker_action E me (2, c, f, s) st)) = world st @ [pair_item f s] \<and>
      mypub E (pair_item f s)) \<and>
   (mypub E (pair_item f s) \<longrightarrow>
      world (snd (attacker_action E me (4, c, pair_item f s, r2) st)) = world st @ [f, s] \<and>
      mypub E f \<and> mypub E s)"
  by (simp add: attacker_action_2 attacker_action_4)

theorem pair_classification_witness:
  "mypub all_honest (pair_item (data_item 1) (key_item 1 0 True 5)) \<and>
   world (snd (attacker_action all_honest 0 (2, 0, data_item 1, key_item 1 0 True 5) initial))
     = [pair_item (data_item 1) (key_item 1 0 True 5)] \<and>
   world (snd (attacker_action all_honest 0
       (4, 0, pair_item (data_item 1) (key_item 1 0 True 5), data_item 0) initial))
     = [data_item 1, key_item 1 0 True 5]"
proof -
  have h: "mypub all_honest (data_item 1) \<and> mypub all_honest (key_item 1 0 True 5)"
    by simp
  show ?thesis
    using pair_classification [of all_honest "data_item 1" "key_item 1 0 True 5" 0 0 initial
        "data_item 0"] h
    by (simp add: initial_def)
qed

section \<open>Claims about the wrappers and the client's checks\<close>

text \<open>
  Claim C7. Client response validation. Let the delivered item decrypt under the
  client's private key to \<open>pair_item serverIdTerm (pair_item echoedNonce serverNonce)\<close>.
  If \<open>serverIdTerm\<close> is not \<open>data_item server\<close> the client does not return, and if
  \<open>echoedNonce\<close> is not its own nonce the client does not return; in both cases the
  world holds the first message only. If both comparisons succeed the client sends
  the third message, \<open>serverNonce\<close> encrypted for the server, and completes. For any
  delivered item at all, the client completes only if the item is of that form with
  both comparisons succeeding, and otherwise sends no third message.
\<close>

theorem client_response_validation:
  fixes E c sv n s cskid spkid serverIdTerm echoedNonce serverNonce
  defines "cn \<equiv> key_item c n False (int_pair E 1 sv)"
  defines "first_message \<equiv> encrypted_item sv spkid (int_pair E 0 0) (pair_item (data_item c) cn)"
  defines "run \<equiv> client E c sv (c, cskid, False, int_pair E 0 0) (sv, spkid, True, int_pair E 0 0)"
  defines "r \<equiv> encrypted_item c cskid (int_pair E 0 0)
                 (pair_item serverIdTerm (pair_item echoedNonce serverNonce))"
  assumes "principal s c = Some n"
  shows "(serverIdTerm \<noteq> data_item sv \<longrightarrow>
            (\<exists>h. fst (run r s) = Inl h) \<and> world (snd (run r s)) = world s @ [first_message]) \<and>
         (echoedNonce \<noteq> cn \<longrightarrow>
            (\<exists>h. fst (run r s) = Inl h) \<and> world (snd (run r s)) = world s @ [first_message]) \<and>
         (serverIdTerm = data_item sv \<and> echoedNonce = cn \<longrightarrow>
            fst (run r s) = Inr (cn, serverNonce) \<and>
            world (snd (run r s)) =
              world s @ [first_message, encrypted_item sv spkid (int_pair E 0 0) serverNonce]) \<and>
         (\<forall>r'. (\<exists>res. fst (run r' s) = Inr res) \<longrightarrow>
            (\<exists>sn. r' = encrypted_item c cskid (int_pair E 0 0)
                         (pair_item (data_item sv) (pair_item cn sn)))) \<and>
         (\<forall>r'. (\<exists>h. fst (run r' s) = Inl h) \<longrightarrow>
            world (snd (run r' s)) = world s @ [first_message])"
proof -
  note cr = client_run [OF assms(5)]
  have 1: "serverIdTerm \<noteq> data_item sv \<longrightarrow>
            (\<exists>h. fst (run r s) = Inl h) \<and> world (snd (run r s)) = world s @ [first_message]"
    unfolding run_def r_def first_message_def cn_def
    by (cases serverIdTerm) (simp_all add: cr)
  have 2: "echoedNonce \<noteq> cn \<longrightarrow>
            (\<exists>h. fst (run r s) = Inl h) \<and> world (snd (run r s)) = world s @ [first_message]"
    unfolding run_def r_def first_message_def cn_def
    by (cases serverIdTerm) (simp_all add: cr)
  have 3: "serverIdTerm = data_item sv \<and> echoedNonce = cn \<longrightarrow>
            fst (run r s) = Inr (cn, serverNonce) \<and>
            world (snd (run r s)) =
              world s @ [first_message, encrypted_item sv spkid (int_pair E 0 0) serverNonce]"
    unfolding run_def r_def first_message_def cn_def
    by (simp add: cr)
  have 4: "\<forall>r'. (\<exists>res. fst (run r' s) = Inr res) \<longrightarrow>
            (\<exists>sn. r' = encrypted_item c cskid (int_pair E 0 0)
                         (pair_item (data_item sv) (pair_item cn sn)))"
    unfolding run_def cn_def
    by (auto simp: cr split: item.splits if_splits)
  have 5: "\<forall>r'. (\<exists>h. fst (run r' s) = Inl h) \<longrightarrow>
            world (snd (run r' s)) = world s @ [first_message]"
    unfolding run_def first_message_def cn_def
    by (auto simp: cr split: item.splits if_splits)
  from 1 2 3 4 5 show ?thesis by blast
qed

theorem client_response_validation_witness:
  "principal \<lparr>principals = 3, principal = [1 \<mapsto> 0], world = []\<rparr> 1 = Some 0 \<and>
   (\<exists>h. fst (client all_honest 1 2 (1, 0, False, pair_code 0 0) (2, 0, True, pair_code 0 0)
      (encrypted_item 1 0 (pair_code 0 0)
         (pair_item (data_item 3) (pair_item (key_item 1 0 False (pair_code 1 2)) (data_item 9))))
      \<lparr>principals = 3, principal = [1 \<mapsto> 0], world = []\<rparr>) = Inl h) \<and>
   (\<exists>h. fst (client all_honest 1 2 (1, 0, False, pair_code 0 0) (2, 0, True, pair_code 0 0)
      (encrypted_item 1 0 (pair_code 0 0)
         (pair_item (data_item 2) (pair_item (key_item 1 1 False (pair_code 1 2)) (data_item 9))))
      \<lparr>principals = 3, principal = [1 \<mapsto> 0], world = []\<rparr>) = Inl h) \<and>
   fst (client all_honest 1 2 (1, 0, False, pair_code 0 0) (2, 0, True, pair_code 0 0)
      (encrypted_item 1 0 (pair_code 0 0)
         (pair_item (data_item 2) (pair_item (key_item 1 0 False (pair_code 1 2)) (data_item 9))))
      \<lparr>principals = 3, principal = [1 \<mapsto> 0], world = []\<rparr>)
     = Inr (key_item 1 0 False (pair_code 1 2), data_item 9) \<and>
   world (snd (client all_honest 1 2 (1, 0, False, pair_code 0 0) (2, 0, True, pair_code 0 0)
      (encrypted_item 1 0 (pair_code 0 0)
         (pair_item (data_item 2) (pair_item (key_item 1 0 False (pair_code 1 2)) (data_item 9))))
      \<lparr>principals = 3, principal = [1 \<mapsto> 0], world = []\<rparr>))
     = [encrypted_item 2 0 (pair_code 0 0)
          (pair_item (data_item 1) (key_item 1 0 False (pair_code 1 2))),
        encrypted_item 2 0 (pair_code 0 0) (data_item 9)]"
proof -
  have p: "principal \<lparr>principals = 3, principal = [1 \<mapsto> 0], world = []\<rparr> 1 = Some 0"
    by simp
  have ip: "int_pair all_honest = pair_code" by (simp add: all_honest_def)
  note v = client_response_validation [OF p, where E = all_honest and sv = 2 and cskid = 0
      and spkid = 0 and serverNonce = "data_item 9"]
  show ?thesis
    using v [where serverIdTerm = "data_item 3" and echoedNonce = "key_item 1 0 False (pair_code 1 2)"]
      v [where serverIdTerm = "data_item 2" and echoedNonce = "key_item 1 1 False (pair_code 1 2)"]
      v [where serverIdTerm = "data_item 2" and echoedNonce = "key_item 1 0 False (pair_code 1 2)"]
    by (simp add: ip)
qed

text \<open>
  Claim C8. Extractor failure semantics. On an item of the expected constructor each
  extractor returns the fields: \<open>item_get_data\<close> on \<open>data_item d\<close> returns \<open>d\<close>,
  \<open>pair_get_first\<close> and \<open>pair_get_second\<close> on \<open>pair_item f s\<close> return \<open>f\<close> and \<open>s\<close>,
  \<open>check_is_key\<close> on a key item returns with the key's fields. On an item of any other
  constructor each of them aborts with \<open>ShapeMismatch\<close> and returns no value. Items
  are values, so the argument is the same item after the call as before.
\<close>

theorem extractor_failure_semantics:
  "item_get_data (data_item d) = Inr d \<and>
   ((\<forall>d'. t \<noteq> data_item d') \<longrightarrow> item_get_data t = Inl ShapeMismatch) \<and>
   pair_get_first (pair_item f s) = Inr f \<and>
   pair_get_second (pair_item f s) = Inr s \<and>
   ((\<forall>f' s'. t \<noteq> pair_item f' s') \<longrightarrow>
      pair_get_first t = Inl ShapeMismatch \<and> pair_get_second t = Inl ShapeMismatch) \<and>
   check_is_key (key_item creator index isPublicKey info) = Inr (creator, index, isPublicKey, info) \<and>
   ((\<forall>creator' index' isPublicKey' info'. t \<noteq> key_item creator' index' isPublicKey' info') \<longrightarrow>
      check_is_key t = Inl ShapeMismatch)"
  by (cases t)
    (simp_all add: item_get_data_def pair_get_first_def pair_get_second_def check_is_key_def)

theorem extractor_failure_semantics_witness:
  "item_get_data (encrypted_item 1 2 3 (data_item 4)) = Inl ShapeMismatch \<and>
   pair_get_first (encrypted_item 1 2 3 (data_item 4)) = Inl ShapeMismatch \<and>
   pair_get_second (encrypted_item 1 2 3 (data_item 4)) = Inl ShapeMismatch \<and>
   check_is_key (encrypted_item 1 2 3 (data_item 4)) = Inl ShapeMismatch"
  using extractor_failure_semantics [of 0 "encrypted_item 1 2 3 (data_item 4)"]
  by simp

text \<open>
  Claim C9. \<open>decrypt key t\<close> returns an item exactly when the key is a private half
  and \<open>t\<close> is an encrypted item whose creator, index and info are those of the key;
  the item returned is then the payload. With a public key, with an item that is not
  encrypted, or with an encrypted item of another key identity, it aborts.
\<close>

theorem decrypt_semantics:
  "(decrypt (creator, index, isPublicKey, info) t = Inr p \<longleftrightarrow>
      \<not> isPublicKey \<and> t = encrypted_item creator index info p) \<and>
   (isPublicKey \<longrightarrow> decrypt (creator, index, isPublicKey, info) t = Inl WrongKeyHalf) \<and>
   (\<not> isPublicKey \<and> (\<forall>c0 i0 info0 p0. t \<noteq> encrypted_item c0 i0 info0 p0) \<longrightarrow>
      decrypt (creator, index, isPublicKey, info) t = Inl ShapeMismatch) \<and>
   (\<not> isPublicKey \<and> (c0, i0, info0) \<noteq> (creator, index, info) \<longrightarrow>
      decrypt (creator, index, isPublicKey, info) (encrypted_item c0 i0 info0 p0) = Inl KeyMismatch)"
  by (cases t) auto

theorem decrypt_semantics_witness:
  "decrypt (1, 2, False, 3) (encrypted_item 1 2 3 (data_item 4)) = Inr (data_item 4) \<and>
   decrypt (1, 2, True, 3) (encrypted_item 1 2 3 (data_item 4)) = Inl WrongKeyHalf \<and>
   decrypt (1, 2, False, 3) (encrypted_item 1 5 3 (data_item 4)) = Inl KeyMismatch"
  using decrypt_semantics [of 1 2 False 3 "encrypted_item 1 2 3 (data_item 4)" "data_item 4" 1 5 3
      "data_item 4"]
    decrypt_semantics [of 1 2 True 3 "encrypted_item 1 2 3 (data_item 4)" "data_item 4" 1 2 3
      "data_item 4"]
  by simp

section \<open>Secrecy of the nonces\<close>

lemma client_nonce_not_public:
  assumes "int_pair_lemmas E" "\<not> bad E c" "\<not> bad E sv"
  shows "\<not> mypub E (key_item c n False (int_pair E 1 sv))"
  using assms by (simp add: int_left_pair int_right_pair)

lemma client_server_nonce_not_public:
  assumes ax: "int_pair_lemmas E" and c: "\<not> bad E c" and sv: "\<not> bad E sv"
    and r: "mypub E (encrypted_item c k (int_pair E 0 0)
              (pair_item (data_item sv) (pair_item (key_item c n False (int_pair E 1 sv)) sn)))"
  shows "\<not> mypub E sn"
proof -
  have cn: "\<not> mypub E (key_item c n False (int_pair E 1 sv))"
    using ax c sv by (rule client_nonce_not_public)
  with r obtain i0 info0 where sn: "sn = key_item sv i0 False info0"
    and i: "int_left E info0 = 2" "c = int_left E (int_right E info0)"
    by (cases sn) auto
  with c sv show ?thesis by simp
qed

lemma server_nonces_not_public:
  assumes ax: "int_pair_lemmas E" and sv: "\<not> bad E sv" and cl: "\<not> bad E cl"
    and ns: "ns = key_item sv n False (int_pair E 2 (int_pair E cl (int_pair E cnc
               (int_pair E (if cnpub then 1 else 0) cninfo))))"
    and r: "mypub E (encrypted_item sv k (int_pair E 0 0) ns)"
  shows "\<not> mypub E (key_item cnc cnid cnpub cninfo) \<and> \<not> mypub E ns"
proof -
  have n: "\<not> mypub E ns"
    using ax sv cl by (simp add: ns int_left_pair int_right_pair)
  with r have "cl = cnc" "(if cnpub then 1 else 0) = (0::int)" "cninfo = int_pair E 1 sv"
    using ax by (simp_all add: ns int_left_pair int_right_pair)
  then have "cnc = cl" "\<not> cnpub" "cninfo = int_pair E 1 sv"
    by (simp_all split: if_splits)
  with ax sv cl n show ?thesis by (simp add: int_left_pair int_right_pair)
qed

section \<open>The server, computed\<close>

lemma bind_eq_Inr:
  "bind m f s = (Inr b, t) \<longleftrightarrow> (\<exists>a s'. m s = (Inr a, s') \<and> f a s' = (Inr b, t))"
  by (auto simp: bind_def split: prod.splits sum.splits)

lemma lift_eq_Inr: "lift r s = (Inr a, t) \<longleftrightarrow> r = Inr a \<and> t = s"
  by (auto simp: lift_def)

lemma return_eq: "return a s = (x, t) \<longleftrightarrow> x = Inr a \<and> t = s"
  by (auto simp: return_def)

lemma net_receive_eq: "net_receive d s = (x, t) \<longleftrightarrow> x = Inr d \<and> t = s"
  by (auto simp: net_receive_def return_def)

lemma net_send_eq: "net_send d s = (x, t) \<longleftrightarrow> x = Inr () \<and> t = s\<lparr>world := world s @ [d]\<rparr>"
  by (auto simp: net_send_def)

lemma abort_unless_eq_Inr: "(if b then abort else return ()) s = (Inr u, t) \<longleftrightarrow> \<not> b \<and> t = s"
  by (auto simp: abort_def return_def)

lemma create_keypair_eq_Inr:
  "create_keypair p info s = (Inr kp, t) \<longleftrightarrow>
     (\<exists>n. principal s p = Some n \<and> kp = (p, n, info) \<and>
          t = s\<lparr>principal := (principal s)(p \<mapsto> n + 1)\<rparr>)"
  by (auto simp: create_keypair_def split: option.splits)

lemma pair_get_first_eq_Inr: "pair_get_first x = Inr f \<longleftrightarrow> (\<exists>s. x = pair_item f s)"
  by (cases x) (auto simp: pair_get_first_def)

lemma pair_get_second_eq_Inr: "pair_get_second x = Inr s \<longleftrightarrow> (\<exists>f. x = pair_item f s)"
  by (cases x) (auto simp: pair_get_second_def)

lemma item_get_data_eq_Inr: "item_get_data x = Inr d \<longleftrightarrow> x = data_item d"
  by (cases x) (auto simp: item_get_data_def)

lemmas returns_simps = bind_eq_Inr lift_eq_Inr return_eq net_receive_eq net_send_eq
  abort_unless_eq_Inr create_keypair_eq_Inr decrypt_eq_Inr encrypt_eq_Inr
  pair_get_first_eq_Inr pair_get_second_eq_Inr item_get_data_eq_Inr check_is_key_eq_Inr

text \<open>An iteration that returns has received these two items and sent this one.\<close>

lemma server_iteration_returns:
  assumes "server_iteration E sv (sv, sskid, False, int_pair E 0 0) (r1, kid, r2) s
             = (Inr (cl, nc, ns), s')"
  shows "\<exists>n cnc cnid cnpub cninfo. principal s sv = Some n \<and>
        nc = key_item cnc cnid cnpub cninfo \<and>
        r1 = encrypted_item sv sskid (int_pair E 0 0) (pair_item (data_item cl) nc) \<and>
        ns = key_item sv n False (int_pair E 2 (int_pair E cl (int_pair E cnc
               (int_pair E (if cnpub then 1 else 0) cninfo)))) \<and>
        r2 = encrypted_item sv sskid (int_pair E 0 0) ns \<and>
        s' = s\<lparr>principal := (principal s)(sv \<mapsto> n + 1),
               world := world s @ [encrypted_item cl kid (int_pair E 0 0)
                   (pair_item (data_item sv) (pair_item nc ns))]\<rparr>"
  using assms
  by (auto simp: server_iteration_def Let_def returns_simps create_data_item_def create_pair_def
      item_equals_def get_client_public_key_def
      simp del: decrypt.simps encrypt.simps split del: if_split)

text \<open>An iteration that receives two such items returns, whoever the client is.\<close>

lemma server_iteration_run:
  assumes "principal s sv = Some n"
  shows "server_iteration E sv (sv, sskid, False, int_pair E 0 0)
      (encrypted_item sv sskid (int_pair E 0 0)
         (pair_item (data_item cl) (key_item cnc cnid cnpub cninfo)),
       kid,
       encrypted_item sv sskid (int_pair E 0 0)
         (key_item sv n False (int_pair E 2 (int_pair E cl (int_pair E cnc
            (int_pair E (if cnpub then 1 else 0) cninfo)))))) s =
     (Inr (cl, key_item cnc cnid cnpub cninfo,
           key_item sv n False (int_pair E 2 (int_pair E cl (int_pair E cnc
             (int_pair E (if cnpub then 1 else 0) cninfo))))),
      s\<lparr>principal := (principal s)(sv \<mapsto> n + 1),
        world := world s @ [encrypted_item cl kid (int_pair E 0 0)
           (pair_item (data_item sv) (pair_item (key_item cnc cnid cnpub cninfo)
              (key_item sv n False (int_pair E 2 (int_pair E cl (int_pair E cnc
                 (int_pair E (if cnpub then 1 else 0) cninfo)))))))]\<rparr>)"
  using assms
  by (simp add: server_iteration_def bind_def lift_def net_receive_def return_def net_send_def
      pair_get_first_def pair_get_second_def item_get_data_def check_is_key_def
      create_keypair_def get_client_public_key_def create_data_item_def create_pair_def
      item_equals_def Let_def abort_def
      split del: if_split)

lemma server_iteration_secrecy:
  assumes ax: "int_pair_lemmas E" and sv: "\<not> bad E sv" and cl: "\<not> bad E cl"
    and r2: "mypub E r2"
    and run: "server_iteration E sv (sv, sskid, False, int_pair E 0 0) (r1, kid, r2) s
                = (Inr (cl, nc, ns), s')"
  shows "\<not> mypub E nc \<and> \<not> mypub E ns"
proof -
  from server_iteration_returns [OF run]
  obtain n cnc cnid cnpub cninfo where nc: "nc = key_item cnc cnid cnpub cninfo"
    and ns: "ns = key_item sv n False (int_pair E 2 (int_pair E cl (int_pair E cnc
               (int_pair E (if cnpub then 1 else 0) cninfo))))"
    and r: "r2 = encrypted_item sv sskid (int_pair E 0 0) ns"
    by blast
  from r2 r have "mypub E (encrypted_item sv sskid (int_pair E 0 0) ns)" by simp
  from server_nonces_not_public [OF ax sv cl ns this] nc show ?thesis by simp
qed

lemma server_secrecy:
  assumes ax: "int_pair_lemmas E" and sv: "\<not> bad E sv"
    and ds: "\<forall>d\<in>set ds. mypub E (fst d) \<and> mypub E (snd (snd d))"
  shows "\<forall>session\<in>set (fst (server E sv (sv, sskid, False, int_pair E 0 0) ds s)).
           \<not> bad E (fst session) \<longrightarrow>
           \<not> mypub E (fst (snd session)) \<and> \<not> mypub E (snd (snd session))"
  using ds
proof (induction ds arbitrary: s)
  case Nil
  then show ?case by simp
next
  case (Cons d ds)
  obtain r1 kid r2 where d: "d = (r1, kid, r2)" by (cases d) auto
  with Cons.prems have r2: "mypub E r2" by simp
  from Cons.prems have rest: "\<forall>d\<in>set ds. mypub E (fst d) \<and> mypub E (snd (snd d))" by simp
  show ?case
  proof (cases "server_iteration E sv (sv, sskid, False, int_pair E 0 0) d s")
    case (Pair res s')
    show ?thesis
    proof (cases res)
      case (Inl h)
      with Pair show ?thesis by simp
    next
      case (Inr session)
      obtain cl nc ns where n: "session = (cl, nc, ns)" by (cases session) auto
      from Pair Inr n d
      have run: "server_iteration E sv (sv, sskid, False, int_pair E 0 0) (r1, kid, r2) s
              = (Inr (cl, nc, ns), s')" by simp
      have here: "\<not> bad E cl \<longrightarrow> \<not> mypub E nc \<and> \<not> mypub E ns"
        using server_iteration_secrecy [OF ax sv _ r2 run] by blast
      from Cons.IH [OF rest, of s'] Pair Inr n here show ?thesis
        by (simp split: prod.splits)
    qed
  qed
qed

text \<open>
  Claim C1. Secrecy. Let the server not be bad, and let every item that
  \<^verbatim>\<open>net_receive\<close> delivers be public, as its contract says. If the client is not bad
  and completes, its client nonce and its server nonce are not public at the
  completion point. In a run of the server, for every completed iteration whose client
  is not bad, the client nonce and the server nonce are not public at the end of that
  iteration; the iterations of bad clients complete as well and do not end the run.
  The same holds of a single iteration started in any state. ``The client is not bad''
  is the ghost statement \<^verbatim>\<open>assume(!bad(client))\<close> of the server and the precondition
  \<^verbatim>\<open>!bad(client)\<close> of the client.
\<close>

theorem nonce_secrecy:
  assumes "int_pair_lemmas E" and "\<not> bad E client'" and "\<not> bad E server'"
  shows "(mypub E r \<and>
          client E client' server' (client', cskid, False, int_pair E 0 0)
            (server', spkid, True, int_pair E 0 0) r s = (Inr (clientNonce, serverNonce), s') \<longrightarrow>
            \<not> mypub E clientNonce \<and> \<not> mypub E serverNonce) \<and>
         ((\<forall>d\<in>set ds. mypub E (fst d) \<and> mypub E (snd (snd d))) \<longrightarrow>
            (\<forall>session\<in>set (fst (server E server' (server', sskid, False, int_pair E 0 0) ds t)).
               \<not> bad E (fst session) \<longrightarrow>
               \<not> mypub E (fst (snd session)) \<and> \<not> mypub E (snd (snd session)))) \<and>
         (mypub E rb \<and> \<not> bad E cl \<and>
          server_iteration E server' (server', sskid, False, int_pair E 0 0) (ra, kid, rb) u
            = (Inr (cl, nc, ns), u') \<longrightarrow>
            \<not> mypub E nc \<and> \<not> mypub E ns)"
proof -
  have "\<not> mypub E clientNonce \<and> \<not> mypub E serverNonce"
    if h: "mypub E r \<and>
          client E client' server' (client', cskid, False, int_pair E 0 0)
            (server', spkid, True, int_pair E 0 0) r s = (Inr (clientNonce, serverNonce), s')"
  proof -
    from h obtain n where cn: "clientNonce = key_item client' n False (int_pair E 1 server')"
      and r: "r = encrypted_item client' cskid (int_pair E 0 0)
                    (pair_item (data_item server') (pair_item clientNonce serverNonce))"
      unfolding client_returns_iff by blast
    from h r cn have "mypub E (encrypted_item client' cskid (int_pair E 0 0)
        (pair_item (data_item server')
           (pair_item (key_item client' n False (int_pair E 1 server')) serverNonce)))"
      by simp
    from client_server_nonce_not_public [OF assms this]
    have "\<not> mypub E serverNonce" .
    moreover from client_nonce_not_public [OF assms] cn have "\<not> mypub E clientNonce"
      by simp
    ultimately show ?thesis by simp
  qed
  moreover
  have "\<forall>session\<in>set (fst (server E server' (server', sskid, False, int_pair E 0 0) ds t)).
               \<not> bad E (fst session) \<longrightarrow>
               \<not> mypub E (fst (snd session)) \<and> \<not> mypub E (snd (snd session))"
    if "\<forall>d\<in>set ds. mypub E (fst d) \<and> mypub E (snd (snd d))"
    using server_secrecy [OF assms(1) assms(3) that] .
  moreover
  have "\<not> mypub E nc \<and> \<not> mypub E ns"
    if "mypub E rb \<and> \<not> bad E cl \<and>
          server_iteration E server' (server', sskid, False, int_pair E 0 0) (ra, kid, rb) u
            = (Inr (cl, nc, ns), u')"
    using server_iteration_secrecy [OF assms(1) assms(3)] that by blast
  ultimately show ?thesis by blast
qed

theorem nonce_secrecy_witness:
  "mypub zero_bad (encrypted_item 1 0 (pair_code 0 0)
      (pair_item (data_item 2)
         (pair_item (key_item 1 0 False (pair_code 1 2))
            (key_item 2 1 False
               (pair_code 2 (pair_code 1 (pair_code 1 (pair_code 0 (pair_code 1 2))))))))) \<and>
   fst (client zero_bad 1 2 (1, 0, False, pair_code 0 0) (2, 0, True, pair_code 0 0)
     (encrypted_item 1 0 (pair_code 0 0)
        (pair_item (data_item 2)
           (pair_item (key_item 1 0 False (pair_code 1 2))
              (key_item 2 1 False
                 (pair_code 2 (pair_code 1 (pair_code 1 (pair_code 0 (pair_code 1 2)))))))))
     \<lparr>principals = 3, principal = [1 \<mapsto> 0, 2 \<mapsto> 0], world = []\<rparr>)
     = Inr (key_item 1 0 False (pair_code 1 2),
            key_item 2 1 False
              (pair_code 2 (pair_code 1 (pair_code 1 (pair_code 0 (pair_code 1 2)))))) \<and>
   bad zero_bad 0 \<and> \<not> bad zero_bad 1 \<and> \<not> bad zero_bad 2 \<and>
   fst (server zero_bad 2 (2, 0, False, pair_code 0 0)
     [(encrypted_item 2 0 (pair_code 0 0)
         (pair_item (data_item 0) (key_item 0 0 False (pair_code 1 2))),
       0,
       encrypted_item 2 0 (pair_code 0 0)
         (key_item 2 0 False
            (pair_code 2 (pair_code 0 (pair_code 0 (pair_code 0 (pair_code 1 2))))))),
      (encrypted_item 2 0 (pair_code 0 0)
         (pair_item (data_item 1) (key_item 1 0 False (pair_code 1 2))),
       0,
       encrypted_item 2 0 (pair_code 0 0)
         (key_item 2 1 False
            (pair_code 2 (pair_code 1 (pair_code 1 (pair_code 0 (pair_code 1 2)))))))]
     \<lparr>principals = 3, principal = [1 \<mapsto> 0, 2 \<mapsto> 0], world = []\<rparr>)
     = [(0, key_item 0 0 False (pair_code 1 2),
         key_item 2 0 False
           (pair_code 2 (pair_code 0 (pair_code 0 (pair_code 0 (pair_code 1 2)))))),
        (1, key_item 1 0 False (pair_code 1 2),
         key_item 2 1 False
           (pair_code 2 (pair_code 1 (pair_code 1 (pair_code 0 (pair_code 1 2))))))] \<and>
   \<not> mypub zero_bad (key_item 1 0 False (pair_code 1 2)) \<and>
   \<not> mypub zero_bad (key_item 2 1 False
        (pair_code 2 (pair_code 1 (pair_code 1 (pair_code 0 (pair_code 1 2))))))"
proof -
  let ?s = "\<lparr>principals = 3, principal = [1 \<mapsto> 0, 2 \<mapsto> 0], world = []\<rparr>"
  let ?cn = "key_item 1 0 False (pair_code 1 2)"
  let ?sn = "key_item 2 1 False
               (pair_code 2 (pair_code 1 (pair_code 1 (pair_code 0 (pair_code 1 2)))))"
  let ?bn = "key_item 0 0 False (pair_code 1 2)"
  let ?bs = "key_item 2 0 False
               (pair_code 2 (pair_code 0 (pair_code 0 (pair_code 0 (pair_code 1 2)))))"
  let ?r = "encrypted_item 1 0 (pair_code 0 0) (pair_item (data_item 2) (pair_item ?cn ?sn))"
  let ?b1 = "encrypted_item 2 0 (pair_code 0 0) (pair_item (data_item 0) ?bn)"
  let ?b3 = "encrypted_item 2 0 (pair_code 0 0) ?bs"
  let ?m1 = "encrypted_item 2 0 (pair_code 0 0) (pair_item (data_item 1) ?cn)"
  let ?m3 = "encrypted_item 2 0 (pair_code 0 0) ?sn"
  let ?s1 = "\<lparr>principals = 3, principal = [1 \<mapsto> 0, 2 \<mapsto> 1],
              world = [encrypted_item 0 0 (pair_code 0 0)
                         (pair_item (data_item 2) (pair_item ?bn ?bs))]\<rparr>"
  have ip: "int_pair zero_bad = pair_code" and il: "int_left zero_bad = left_code"
    and ir: "int_right zero_bad = right_code" and b: "\<And>p. bad zero_bad p = (p = 0)"
    by (simp_all add: zero_bad_def)
  have ax: "int_pair_lemmas zero_bad" by simp
  have nb1: "\<not> bad zero_bad 1" and nb2: "\<not> bad zero_bad 2" and b0: "bad zero_bad 0"
    by (simp_all add: b)
  have pc: "principal ?s 1 = Some 0" and ps: "principal ?s 2 = Some 0"
    and ps1: "principal ?s1 2 = Some 1" by simp_all
  have r: "mypub zero_bad ?r" by (simp add: ip il ir b)
  have cf: "fst (client zero_bad 1 2 (1, 0, False, pair_code 0 0) (2, 0, True, pair_code 0 0)
                 ?r ?s) = Inr (?cn, ?sn)"
    using client_run [OF pc, where E = zero_bad and sv = 2 and cskid = 0 and spkid = 0
        and r = "?r"]
    by (simp add: ip)
  then obtain s' where c: "client zero_bad 1 2 (1, 0, False, pair_code 0 0)
      (2, 0, True, pair_code 0 0) ?r ?s = (Inr (?cn, ?sn), s')"
    by (metis prod.collapse)
  have m: "\<forall>d\<in>set [(?b1, 0::int, ?b3), (?m1, 0::int, ?m3)].
             mypub zero_bad (fst d) \<and> mypub zero_bad (snd (snd d))"
    by (simp add: ip il ir b)
  have i0: "server_iteration zero_bad 2 (2, 0, False, pair_code 0 0) (?b1, 0, ?b3) ?s
              = (Inr (0, ?bn, ?bs), ?s1)"
    using server_iteration_run [OF ps, where E = zero_bad and sskid = 0 and cl = 0 and cnc = 0
        and cnid = 0 and cnpub = False and cninfo = "pair_code 1 2" and kid = 0]
    by (simp add: ip)
  have i1: "server_iteration zero_bad 2 (2, 0, False, pair_code 0 0) (?m1, 0, ?m3) ?s1
              = (Inr (1, ?cn, ?sn), snd (server_iteration zero_bad 2 (2, 0, False, pair_code 0 0)
                   (?m1, 0, ?m3) ?s1))"
    using server_iteration_run [OF ps1, where E = zero_bad and sskid = 0 and cl = 1 and cnc = 1
        and cnid = 0 and cnpub = False and cninfo = "pair_code 1 2" and kid = 0]
    by (simp add: ip)
  have sr: "fst (server zero_bad 2 (2, 0, False, pair_code 0 0)
                   [(?b1, 0, ?b3), (?m1, 0, ?m3)] ?s)
              = [(0, ?bn, ?bs), (1, ?cn, ?sn)]"
    by (subst server.simps, subst i0, simp, subst server.simps, subst i1)
      (simp split: prod.splits)
  note t = nonce_secrecy [OF ax nb1 nb2, where r = "?r" and cskid = 0
      and spkid = 0 and s = "?s" and clientNonce = "?cn" and serverNonce = "?sn" and s' = s'
      and ds = "[(?b1, 0, ?b3), (?m1, 0, ?m3)]" and sskid = 0 and t = "?s"
      and ra = "?m1" and kid = 0 and rb = "?m3" and cl = 1 and nc = "?cn" and ns = "?sn"
      and u = "?s1"
      and u' = "snd (server_iteration zero_bad 2 (2, 0, False, pair_code 0 0) (?m1, 0, ?m3) ?s1)",
      unfolded ip]
  from t r c have "\<not> mypub zero_bad ?cn \<and> \<not> mypub zero_bad ?sn" by blast
  moreover from t m sr nb1 have "\<not> mypub zero_bad ?cn \<and> \<not> mypub zero_bad ?sn" by simp
  moreover from m have "mypub zero_bad ?m3" by simp
  with t i1 nb1 have "\<not> mypub zero_bad ?cn \<and> \<not> mypub zero_bad ?sn" by blast
  ultimately show ?thesis using r cf sr b0 nb1 nb2 by blast
qed

section \<open>The roles keep the world public\<close>

text \<open>
  \<^verbatim>\<open>net_send\<close> requires its item to be public. The two items that the client sends and
  the item that a server iteration sends are public, given that the delivered items
  are: so a world of public items stays one under the roles as well.
\<close>

lemma client_third_message_public:
  assumes ax: "int_pair_lemmas E" and c: "\<not> bad E c" and sv: "\<not> bad E sv"
    and r: "mypub E (encrypted_item c k (int_pair E 0 0)
              (pair_item (data_item sv) (pair_item (key_item c n False (int_pair E 1 sv)) sn)))"
  shows "mypub E (encrypted_item sv spkid (int_pair E 0 0) sn)"
proof -
  have cn: "\<not> mypub E (key_item c n False (int_pair E 1 sv))"
    using ax c sv by (simp add: int_left_pair int_right_pair)
  with r obtain i0 info0 where sn: "sn = key_item sv i0 False info0"
    and i: "int_left E info0 = 2" "c = int_left E (int_right E info0)"
      "c = int_left E (int_right E (int_right E info0))"
      "int_left E (int_right E (int_right E (int_right E info0))) = 0"
      "int_pair E 1 sv = int_right E (int_right E (int_right E (int_right E info0)))"
    by (cases sn) auto
  then show ?thesis by simp
qed

lemma client_world_sound:
  assumes ax: "int_pair_lemmas E" and c: "\<not> bad E c" and sv: "\<not> bad E sv"
    and p: "principal s c = Some n"
    and w: "\<forall>d\<in>set (world s). mypub E d" and r: "mypub E r"
  shows "\<forall>d\<in>set (world (snd (client E c sv (c, cskid, False, int_pair E 0 0)
                                  (sv, spkid, True, int_pair E 0 0) r s))). mypub E d"
proof (cases "fst (client E c sv (c, cskid, False, int_pair E 0 0)
                     (sv, spkid, True, int_pair E 0 0) r s)")
  case (Inl h)
  then have "world (snd (client E c sv (c, cskid, False, int_pair E 0 0)
                           (sv, spkid, True, int_pair E 0 0) r s))
    = world s @ [encrypted_item sv spkid (int_pair E 0 0)
                   (pair_item (data_item c) (key_item c n False (int_pair E 1 sv)))]"
    by (auto simp: client_run [OF p] split: item.splits if_splits)
  with w show ?thesis by simp
next
  case (Inr res)
  obtain cn sn where res: "res = (cn, sn)" by (cases res) auto
  with Inr obtain s' where run: "client E c sv (c, cskid, False, int_pair E 0 0)
      (sv, spkid, True, int_pair E 0 0) r s = (Inr (cn, sn), s')"
    by (metis prod.collapse)
  with p have cn: "cn = key_item c n False (int_pair E 1 sv)"
    and r': "r = encrypted_item c cskid (int_pair E 0 0)
                   (pair_item (data_item sv) (pair_item cn sn))"
    and s': "world s' = world s @
               [encrypted_item sv spkid (int_pair E 0 0) (pair_item (data_item c) cn),
                encrypted_item sv spkid (int_pair E 0 0) sn]"
    unfolding client_returns_iff by auto
  from r r' cn have "mypub E (encrypted_item sv spkid (int_pair E 0 0) sn)"
    using client_third_message_public [OF ax c sv] by simp
  with w run s' cn show ?thesis by simp
qed

lemma server_second_message_public:
  assumes ax: "int_pair_lemmas E"
    and r: "mypub E (encrypted_item sv sskid (int_pair E 0 0)
              (pair_item (data_item cl) (key_item cnc cnid cnpub cninfo)))"
  shows "mypub E (encrypted_item cl kid (int_pair E 0 0)
           (pair_item (data_item sv) (pair_item (key_item cnc cnid cnpub cninfo)
              (key_item sv n False (int_pair E 2 (int_pair E cl (int_pair E cnc
                 (int_pair E (if cnpub then 1 else 0) cninfo))))))))"
proof (cases "mypub E (key_item cnc cnid cnpub cninfo)")
  case True
  then show ?thesis using ax by (simp add: int_left_pair int_right_pair)
next
  case False
  with r have "cninfo = int_pair E 1 sv" "cl = cnc" "\<not> cnpub" by auto
  with False show ?thesis using ax by (simp add: int_left_pair int_right_pair)
qed

lemma server_iteration_world:
  "world (snd (server_iteration E sv (sv, sskid, False, int_pair E 0 0) (r1, kid, r2) s)) = world s \<or>
   (\<exists>n cl cnc cnid cnpub cninfo.
      r1 = encrypted_item sv sskid (int_pair E 0 0)
             (pair_item (data_item cl) (key_item cnc cnid cnpub cninfo)) \<and>
      world (snd (server_iteration E sv (sv, sskid, False, int_pair E 0 0) (r1, kid, r2) s)) =
        world s @ [encrypted_item cl kid (int_pair E 0 0)
           (pair_item (data_item sv) (pair_item (key_item cnc cnid cnpub cninfo)
              (key_item sv n False (int_pair E 2 (int_pair E cl (int_pair E cnc
                 (int_pair E (if cnpub then 1 else 0) cninfo)))))))])"
proof -
  note defs = server_iteration_def bind_def lift_def net_receive_def return_def net_send_def
      pair_get_first_def pair_get_second_def item_get_data_def check_is_key_def
      create_keypair_def get_client_public_key_def create_data_item_def create_pair_def
      item_equals_def Let_def abort_def
  let ?run = "server_iteration E sv (sv, sskid, False, int_pair E 0 0) (r1, kid, r2) s"
  show ?thesis
  proof (cases "\<exists>cl cnc cnid cnpub cninfo. r1 = encrypted_item sv sskid (int_pair E 0 0)
             (pair_item (data_item cl) (key_item cnc cnid cnpub cninfo))")
    case False
    then have "world (snd ?run) = world s"
      by (auto simp: defs split: item.splits option.splits)
    then show ?thesis by simp
  next
    case True
    then obtain cl cnc cnid cnpub cninfo
      where r1: "r1 = encrypted_item sv sskid (int_pair E 0 0)
             (pair_item (data_item cl) (key_item cnc cnid cnpub cninfo))" by blast
    show ?thesis
    proof (cases "principal s sv")
      case None
      then have "world (snd ?run) = world s"
        unfolding r1 by (simp add: defs)
      then show ?thesis by simp
    next
      case (Some n)
      have "world (snd ?run) =
          world s @ [encrypted_item cl kid (int_pair E 0 0)
             (pair_item (data_item sv) (pair_item (key_item cnc cnid cnpub cninfo)
                (key_item sv n False (int_pair E 2 (int_pair E cl (int_pair E cnc
                   (int_pair E (if cnpub then 1 else 0) cninfo)))))))]"
        unfolding r1 using Some
        by (cases cnpub) (simp_all add: defs split: item.splits)
      with r1 show ?thesis by blast
    qed
  qed
qed

lemma server_iteration_world_sound:
  assumes ax: "int_pair_lemmas E"
    and w: "\<forall>d\<in>set (world s). mypub E d" and r: "mypub E r1"
  shows "\<forall>d\<in>set (world (snd (server_iteration E sv (sv, sskid, False, int_pair E 0 0)
                                  (r1, kid, r2) s))). mypub E d"
  using server_iteration_world [of E sv sskid r1 kid r2 s] w r
    server_second_message_public [OF ax]
  by (elim disjE exE conjE) (simp_all del: mypub.simps)

section \<open>The attacker keeps the world public\<close>

lemma attacker_action_sound:
  assumes ax: "int_pair_lemmas E" and me: "bad E me"
    and w: "\<forall>d\<in>set (world s). mypub E d"
    and r: "\<forall>d\<in>set (delivered c). mypub E d"
  shows "\<forall>d\<in>set (world (snd (attacker_action E me c s))). mypub E d"
proof -
  obtain action ch r1 r2 where c: "c = (action, ch, r1, r2)" by (cases c) auto
  consider "action = 0" | "action = 1" | "action = 2" | "action = 3" | "action = 4"
    | "action = 5" | "action \<notin> {0, 1, 2, 3, 4, 5}" by auto
  then show ?thesis
  proof cases
    case 1
    with w me show ?thesis
      by (auto simp: c attacker_action_0 split: option.splits)
  next
    case 2
    with w show ?thesis by (auto simp: c attacker_action_1)
  next
    case 3
    with w r show ?thesis by (auto simp: c attacker_action_2)
  next
    case 4
    with r c have p: "mypub E r2" by simp
    from 4 w p show ?thesis
      by (auto simp: c attacker_action_3 check_is_key_eq_Inr encrypt_eq_Inr
          simp del: encrypt.simps split: sum.splits)
  next
    case 5
    with r c have "mypub E r1" by simp
    with 5 w show ?thesis
      by (auto simp: c attacker_action_4 split: item.splits)
  next
    case 6
    with r c have "mypub E r1" "mypub E r2" by simp_all
    from decrypt_publish_world [OF ax this, of me ch s] 6 w show ?thesis
      by (auto simp: c)
  next
    case 7
    with w show ?thesis by (simp add: c attacker_action_other)
  qed
qed

lemma attacker_loop_sound:
  assumes ax: "int_pair_lemmas E" and me: "bad E me"
    and w: "\<forall>d\<in>set (world s). mypub E d"
    and r: "\<forall>c\<in>set cs. \<forall>d\<in>set (delivered c). mypub E d"
  shows "\<forall>d\<in>set (world (snd (attacker_loop E me cs s))). mypub E d"
  using w r
proof (induction cs arbitrary: s)
  case Nil
  then show ?case by simp
next
  case (Cons c cs)
  from Cons.prems have d: "\<forall>d\<in>set (delivered c). mypub E d" by simp
  from Cons.prems have rest: "\<forall>c\<in>set cs. \<forall>d\<in>set (delivered c). mypub E d" by simp
  from attacker_action_sound [OF ax me Cons.prems(1) d]
  have step: "\<forall>d\<in>set (world (snd (attacker_action E me c s))). mypub E d" .
  show ?case
  proof (cases "attacker_action E me c s")
    case (Pair res s')
    with step have w': "\<forall>d\<in>set (world s'). mypub E d" by simp
    show ?thesis
    proof (cases res)
      case (Inl h)
      with Pair w' show ?thesis by simp
    next
      case (Inr u)
      with Pair Cons.IH [OF w' rest] show ?thesis by simp
    qed
  qed
qed

text \<open>
  The hypothesis \<open>bad E me\<close> cannot be dropped: case 0 sends the private key it has
  made, and the private key of a principal that is not bad, with an info that marks no
  nonce, is not public.
\<close>

lemma leaked_private_key_not_public:
  "world (snd (attacker all_honest [(0, 7, data_item 0, data_item 0)] initial))
     = [key_item 0 0 True 7, key_item 0 0 False 7] \<and>
   \<not> mypub all_honest (key_item 0 0 False 7)"
proof -
  have "\<not> mypub all_honest (key_item 0 0 False 7)"
    by (simp add: all_honest_def)
  moreover
  have "world (snd (attacker all_honest [(0, 7, data_item 0, data_item 0)] initial))
     = [key_item 0 0 True 7, key_item 0 0 False 7]"
    by (simp add: attacker_def bind_def create_principal_def initial_def attacker_action_0)
  ultimately show ?thesis by simp
qed

text \<open>
  Claim C3. World-soundness under the attacker alone. Let the principal that the
  attacker creates for itself be bad: this is the ghost statement \<^verbatim>\<open>assume(bad(me))\<close>
  of the source, before the send of the private key, and the spec's condition that
  principals are correctly marked bad. Let the world hold public items only when the
  attacker starts, and let every item that \<^verbatim>\<open>net_receive\<close> delivers to the attacker
  be public, as its contract says. Then after any finite number of iterations of the
  attacker loop, with any choices, the world holds public items only: every item that
  key generation and leakage, data publication, pairing, encryption, projection or
  decryption has sent is public.
\<close>

theorem attacker_world_sound:
  assumes "int_pair_lemmas E"
    and "bad E (principals s)"
    and "\<forall>d\<in>set (world s). mypub E d"
    and "\<forall>c\<in>set cs. \<forall>d\<in>set (delivered c). mypub E d"
  shows "\<forall>d\<in>set (world (snd (attacker E cs s))). mypub E d"
proof -
  have "world (snd (create_principal s)) = world s"
    by (simp add: create_principal_def)
  with assms(3) have "\<forall>d\<in>set (world (snd (create_principal s))). mypub E d" by simp
  from attacker_loop_sound [OF assms(1) assms(2) this assms(4)]
  show ?thesis by (simp add: attacker_def bind_def create_principal_def)
qed

theorem attacker_world_sound_witness:
  "bad zero_bad (principals initial) \<and>
   world (snd (attacker zero_bad
      [(0, 7, data_item 0, data_item 0),
       (1, 5, data_item 0, data_item 0),
       (2, 0, key_item 0 0 False 7, data_item 5),
       (4, 0, pair_item (key_item 0 0 False 7) (data_item 5), data_item 0),
       (3, 0, key_item 0 0 True 7, data_item 5),
       (5, 0, key_item 0 0 False 7, encrypted_item 0 0 7 (data_item 5))]
      initial))
   = [key_item 0 0 True 7, key_item 0 0 False 7, data_item 5,
      pair_item (key_item 0 0 False 7) (data_item 5),
      key_item 0 0 False 7, data_item 5,
      encrypted_item 0 0 7 (data_item 5),
      data_item 5] \<and>
   mypub zero_bad (key_item 0 0 True 7) \<and>
   mypub zero_bad (key_item 0 0 False 7) \<and>
   mypub zero_bad (data_item 5) \<and>
   mypub zero_bad (pair_item (key_item 0 0 False 7) (data_item 5)) \<and>
   mypub zero_bad (encrypted_item 0 0 7 (data_item 5))"
proof -
  let ?cs = "[(0, 7, data_item 0, data_item 0),
       (1, 5, data_item 0, data_item 0),
       (2, 0, key_item 0 0 False 7, data_item 5),
       (4, 0, pair_item (key_item 0 0 False 7) (data_item 5), data_item 0),
       (3, 0, key_item 0 0 True 7, data_item 5),
       (5, 0, key_item 0 0 False 7, encrypted_item 0 0 7 (data_item 5))]"
  have ax: "int_pair_lemmas zero_bad" by simp
  have b: "bad zero_bad 0" by (simp add: zero_bad_def)
  then have me: "bad zero_bad (principals initial)" by (simp add: initial_def)
  have w: "\<forall>d\<in>set (world initial). mypub zero_bad d" by (simp add: initial_def)
  have r: "\<forall>c\<in>set ?cs. \<forall>d\<in>set (delivered c). mypub zero_bad d"
    by (simp add: b)
  have run: "world (snd (attacker zero_bad ?cs initial))
   = [key_item 0 0 True 7, key_item 0 0 False 7, data_item 5,
      pair_item (key_item 0 0 False 7) (data_item 5),
      key_item 0 0 False 7, data_item 5,
      encrypted_item 0 0 7 (data_item 5),
      data_item 5]"
    by (simp add: attacker_def bind_def create_principal_def initial_def
        attacker_action_0 attacker_action_1 attacker_action_2 attacker_action_3
        attacker_action_4 attacker_action_5 check_is_key_def)
  from attacker_world_sound [OF ax me w r] run
  have "\<forall>d\<in>set [key_item 0 0 True 7, key_item 0 0 False 7, data_item 5,
      pair_item (key_item 0 0 False 7) (data_item 5),
      key_item 0 0 False 7, data_item 5,
      encrypted_item 0 0 7 (data_item 5),
      data_item 5]. mypub zero_bad d"
    by simp
  then have "mypub zero_bad (key_item 0 0 True 7) \<and>
   mypub zero_bad (key_item 0 0 False 7) \<and>
   mypub zero_bad (data_item 5) \<and>
   mypub zero_bad (pair_item (key_item 0 0 False 7) (data_item 5)) \<and>
   mypub zero_bad (encrypted_item 0 0 7 (data_item 5))"
    by (simp del: mypub.simps)
  with run me show ?thesis by blast
qed

section \<open>Key identities are unique\<close>

lemma keypairs_created_distinct:
  assumes "\<forall>p n. principal s p = Some n \<longrightarrow> p < principals s"
    and "\<forall>c i. (c, i) \<in> set used \<longrightarrow>
           c < principals s \<and> (\<forall>n. principal s c = Some n \<longrightarrow> i < n)"
    and "distinct used"
  shows "distinct (used @ map identity (keypairs_created cs s))"
  using assms
proof (induction cs arbitrary: s used)
  case Nil
  then show ?case by simp
next
  case (Cons call cs)
  show ?case
  proof (cases call)
    case Create_principal
    let ?s' = "snd (create_principal s)"
    have 1: "\<forall>p n. principal ?s' p = Some n \<longrightarrow> p < principals ?s'"
      using Cons.prems(1) by (auto simp: create_principal_def)
    have 2: "\<forall>c i. (c, i) \<in> set used \<longrightarrow>
               c < principals ?s' \<and> (\<forall>n. principal ?s' c = Some n \<longrightarrow> i < n)"
    proof (intro allI impI)
      fix c i
      assume "(c, i) \<in> set used"
      with Cons.prems(2)
      have "c < principals s" "\<forall>n. principal s c = Some n \<longrightarrow> i < n" by blast+
      then show "c < principals ?s' \<and> (\<forall>n. principal ?s' c = Some n \<longrightarrow> i < n)"
        by (simp add: create_principal_def)
    qed
    from Cons.IH [OF 1 2 Cons.prems(3)] Create_principal show ?thesis by simp
  next
    case (Create_keypair p info)
    show ?thesis
    proof (cases "principal s p")
      case None
      with Cons.IH [OF Cons.prems] Create_keypair show ?thesis
        by (simp add: create_keypair_def)
    next
      case (Some n)
      let ?s' = "s\<lparr>principal := (principal s)(p \<mapsto> n + 1)\<rparr>"
      have pb: "p < principals s" using Cons.prems(1) Some by blast
      have old: "i < n" if "(p, i) \<in> set used" for i
        using Cons.prems(2) Some that by blast
      have 1: "\<forall>q m. principal ?s' q = Some m \<longrightarrow> q < principals ?s'"
        using Cons.prems(1) pb by auto
      have 2: "\<forall>c i. (c, i) \<in> set (used @ [(p, n)]) \<longrightarrow>
                 c < principals ?s' \<and> (\<forall>m. principal ?s' c = Some m \<longrightarrow> i < m)"
      proof (intro allI impI)
        fix c i
        assume "(c, i) \<in> set (used @ [(p, n)])"
        then consider "(c, i) \<in> set used" | "c = p" "i = n" by auto
        then show "c < principals ?s' \<and> (\<forall>m. principal ?s' c = Some m \<longrightarrow> i < m)"
        proof cases
          case 1
          with Cons.prems(2)
          have "c < principals s" "\<forall>m. principal s c = Some m \<longrightarrow> i < m" by blast+
          moreover have "i < n + 1" if "c = p" using old 1 that by fastforce
          ultimately show ?thesis by simp
        next
          case 2
          with pb show ?thesis by simp
        qed
      qed
      have "(p, n) \<notin> set used" using old by blast
      with Cons.prems(3) have 3: "distinct (used @ [(p, n)])" by simp
      from Cons.IH [OF 1 2 3] Create_keypair Some show ?thesis
        by (simp add: create_keypair_def)
    qed
  qed
qed

text \<open>
  Claim C10. Registry uniqueness. \<open>create_principal\<close> returns the running principal
  count as the new principal's id, increments the count and gives the new principal
  the key count zero. \<open>create_keypair\<close> for a principal with key count \<open>n\<close> returns a
  key pair of that principal with index \<open>n\<close>, whose two halves are the key items of
  that creator and index, and sets the key count to \<open>n + 1\<close>. In any sequence of such
  calls from the initial state, no two calls of \<open>create_keypair\<close> return key pairs
  with the same creator and index.
\<close>

theorem registry_uniqueness:
  "distinct (map identity (keypairs_created cs initial)) \<and>
   create_principal s =
     (Inr (principals s),
      s\<lparr>principals := principals s + 1, principal := (principal s)(principals s \<mapsto> 0)\<rparr>) \<and>
   (principal s p = Some n \<longrightarrow>
      create_keypair p info s =
        (Inr (p, n, info), s\<lparr>principal := (principal s)(p \<mapsto> n + 1)\<rparr>)) \<and>
   item_of_key (keypair_get_private_key (p, n, info)) = key_item p n False info \<and>
   item_of_key (keypair_get_public_key (p, n, info)) = key_item p n True info"
proof -
  have "distinct ([] @ map identity (keypairs_created cs initial))"
    by (rule keypairs_created_distinct) (simp_all add: initial_def)
  then show ?thesis by (simp add: create_principal_def create_keypair_def)
qed

theorem registry_uniqueness_witness:
  "keypairs_created
     [Create_principal, Create_keypair 0 5, Create_keypair 0 6, Create_principal,
      Create_keypair 1 5, Create_keypair 2 5, Create_keypair 0 5] initial
     = [(0, 0, 5), (0, 1, 6), (1, 0, 5), (0, 2, 5)] \<and>
   distinct (map identity (keypairs_created
     [Create_principal, Create_keypair 0 5, Create_keypair 0 6, Create_principal,
      Create_keypair 1 5, Create_keypair 2 5, Create_keypair 0 5] initial)) \<and>
   create_keypair 1 9 \<lparr>principals = 2, principal = [0 \<mapsto> 2, 1 \<mapsto> 1], world = []\<rparr>
     = (Inr (1, 1, 9), \<lparr>principals = 2, principal = [0 \<mapsto> 2, 1 \<mapsto> 2], world = []\<rparr>)"
proof -
  have k: "keypairs_created
     [Create_principal, Create_keypair 0 5, Create_keypair 0 6, Create_principal,
      Create_keypair 1 5, Create_keypair 2 5, Create_keypair 0 5] initial
     = [(0, 0, 5), (0, 1, 6), (1, 0, 5), (0, 2, 5)]"
    by (simp add: create_principal_def create_keypair_def initial_def)
  have p: "principal \<lparr>principals = 2, principal = [0 \<mapsto> 2, 1 \<mapsto> 1], world = []\<rparr> 1 = Some 1"
    by simp
  from registry_uniqueness [of
      "[Create_principal, Create_keypair 0 5, Create_keypair 0 6, Create_principal,
        Create_keypair 1 5, Create_keypair 2 5, Create_keypair 0 5]"
      "\<lparr>principals = 2, principal = [0 \<mapsto> 2, 1 \<mapsto> 1], world = []\<rparr>" 1 1 9] p k
  show ?thesis by simp
qed

end
